theory Spec2Isabelle
  imports Complex_Main
begin

section \<open>The periodic evaluation callback \<open>EvaluateDataset\<close>\<close>

text \<open>
  Shallow embedding of the class \<open>EvaluateDataset\<close> of
  \<^verbatim>\<open>Notebooks/00_Callbacks/00_00_evaluation.ipynb\<close> (the exported cell with the
  \<open>append\<close> argument and the static \<open>_unpack_list_dicts\<close>).

  Python methods mutate \<open>self\<close> in place and either return or raise. A method is
  therefore a function from the object (and the outside world) to a triple: the exception
  raised, if any, the object afterwards and the world afterwards. The object afterwards is
  part of the result also when an exception is raised, because the Python object survives
  the exception with whatever was assigned before it.
\<close>

subsection \<open>Exceptions\<close>

text \<open>
  \<open>ZeroDivisionError\<close> is what Python's \<open>%\<close> raises for a zero divisor,
  \<open>KeyError\<close> what \<open>d[k]\<close> raises for a missing key, \<open>ValueError\<close> what the two
  result properties raise. \<open>External\<close> stands for an exception coming out of the model's
  own \<open>evaluate\<close>, which is not code of this repository.
\<close>

datatype error =
    ZeroDivisionError
  | KeyError string
  | ValueError string
  | External string

subsection \<open>Python dictionaries\<close>

text \<open>
  A \<open>dict\<close> is an association list in insertion order. \<open>d[k] = v\<close> replaces the
  value in place when the key is present and appends the pair otherwise; \<open>d[k]\<close> raises
  \<open>KeyError\<close> when the key is missing. A list that comes from a Python dict has distinct
  keys.
\<close>

type_synonym 'a dict = "(string \<times> 'a) list"

fun dict_contains :: "'a dict \<Rightarrow> string \<Rightarrow> bool" where
  "dict_contains [] k = False"
| "dict_contains ((k', v') # d) k = (if k' = k then True else dict_contains d k)"

fun dict_setitem :: "'a dict \<Rightarrow> string \<Rightarrow> 'a \<Rightarrow> 'a dict" where
  "dict_setitem [] k v = [(k, v)]"
| "dict_setitem ((k', v') # d) k v =
     (if k' = k then (k, v) # d else (k', v') # dict_setitem d k v)"

fun dict_getitem :: "'a dict \<Rightarrow> string \<Rightarrow> error + 'a" where
  "dict_getitem [] k = Inl (KeyError k)"
| "dict_getitem ((k', v') # d) k = (if k' = k then Inr v' else dict_getitem d k)"

subsection \<open>The object\<close>

text \<open>
  The fields assigned by \<open>__init__\<close>. \<open>append_str\<close> is the field \<open>append\<close>;
  \<open>priv_results_batches\<close> and \<open>priv_results_epochs\<close> are the fields
  \<open>_results_batches\<close> and \<open>_results_epochs\<close>. Python integers are unbounded, so the
  frequencies and the counters are of type \<open>int\<close>; \<open>None\<close> is \<open>None\<close>.
\<close>

record ('d, 'v) EvaluateDataset =
  dataset :: 'd
  freq_epochs :: "int option"
  freq_batches :: "int option"
  append_str :: string
  batches_seen :: int
  epochs_seen :: int
  priv_results_batches :: "'v dict list"
  priv_results_epochs :: "'v dict list"

definition convert_to_dataset :: "'d \<Rightarrow> 'd" where
  "convert_to_dataset ds = ds"

text \<open>
  \<open>__init__(self, dataset, freq_epochs=None, freq_batches=None, append="")\<close>. The first
  argument of the model is the outcome of the test
  \<open>isinstance(dataset, tf.data.Dataset)\<close>. The body
  has no \<open>raise\<close> and no check of its arguments, so the constructor is a total function.
\<close>

definition init ::
  "bool \<Rightarrow> 'd \<Rightarrow> int option \<Rightarrow> int option \<Rightarrow> string \<Rightarrow> ('d, 'v) EvaluateDataset" where
  "init is_tf_dataset ds fe fb app =
     \<lparr> dataset = (if is_tf_dataset then ds else convert_to_dataset ds),
       freq_epochs = fe,
       freq_batches = fb,
       append_str = app,
       batches_seen = 0,
       epochs_seen = 0,
       priv_results_batches = [],
       priv_results_epochs = [] \<rparr>"

subsection \<open>The evaluation cycle\<close>

text \<open>
  \<open>self.model.evaluate(self.dataset, verbose=0, return_dict=True)\<close> belongs to the
  training framework. It is the parameter \<open>model_evaluate\<close>: given the dataset and the
  world (the model being trained), it raises or returns a dictionary, and leaves a world.
  \<open>evaluate\<close> builds the dictionary
  \<^verbatim>\<open>{f"{name}{self.append}": value for name, value in ....items()}\<close>
  by inserting the renamed items one after the other into an empty dictionary.
\<close>

type_synonym ('d, 'v, 'w) model_evaluate = "'d \<Rightarrow> 'w \<Rightarrow> (error + 'v dict) \<times> 'w"

definition evaluate ::
  "('d, 'v, 'w) model_evaluate \<Rightarrow> ('d, 'v) EvaluateDataset \<Rightarrow> 'w \<Rightarrow> (error + 'v dict) \<times> 'w" where
  "evaluate model_evaluate self w =
     (case model_evaluate (dataset self) w of
        (Inl e, w') \<Rightarrow> (Inl e, w')
      | (Inr raw, w') \<Rightarrow>
          (Inr (fold (\<lambda>(name, value) acc. dict_setitem acc (name @ append_str self) value) raw []),
           w'))"

subsection \<open>The two notifications\<close>

text \<open>
  \<open>on_train_batch_end(self, batch, logs=None)\<close> and
  \<open>on_epoch_end(self, batch, logs=None)\<close>. \<open>x % 0\<close> raises, and for a non-zero
  divisor Python's \<open>%\<close> on integers is the floored remainder, which is \<open>mod\<close> on
  \<open>int\<close>. An exception of \<open>evaluate\<close> leaves the method before the \<open>append\<close> and
  before the increment.
\<close>

definition on_train_batch_end ::
  "('d, 'v, 'w) model_evaluate \<Rightarrow> ('d, 'v) EvaluateDataset \<Rightarrow> 'w \<Rightarrow> int \<Rightarrow> 'l option
     \<Rightarrow> error option \<times> ('d, 'v) EvaluateDataset \<times> 'w" where
  "on_train_batch_end model_evaluate self w batch logs =
     (case freq_batches self of
        None \<Rightarrow> (None, self, w)
      | Some f \<Rightarrow>
          if f = 0 then (Some ZeroDivisionError, self, w)
          else if batches_seen self mod f = 0 then
            (case evaluate model_evaluate self w of
               (Inl e, w') \<Rightarrow> (Some e, self, w')
             | (Inr results, w') \<Rightarrow>
                 (None,
                  self\<lparr> priv_results_batches := priv_results_batches self @ [results],
                        batches_seen := batches_seen self + 1 \<rparr>,
                  w'))
          else (None, self\<lparr> batches_seen := batches_seen self + 1 \<rparr>, w))"

definition on_epoch_end ::
  "('d, 'v, 'w) model_evaluate \<Rightarrow> ('d, 'v) EvaluateDataset \<Rightarrow> 'w \<Rightarrow> int \<Rightarrow> 'l option
     \<Rightarrow> error option \<times> ('d, 'v) EvaluateDataset \<times> 'w" where
  "on_epoch_end model_evaluate self w batch logs =
     (case freq_epochs self of
        None \<Rightarrow> (None, self, w)
      | Some f \<Rightarrow>
          if f = 0 then (Some ZeroDivisionError, self, w)
          else if epochs_seen self mod f = 0 then
            (case evaluate model_evaluate self w of
               (Inl e, w') \<Rightarrow> (Some e, self, w')
             | (Inr results, w') \<Rightarrow>
                 (None,
                  self\<lparr> priv_results_epochs := priv_results_epochs self @ [results],
                        epochs_seen := epochs_seen self + 1 \<rparr>,
                  w'))
          else (None, self\<lparr> epochs_seen := epochs_seen self + 1 \<rparr>, w))"

text \<open>
  The training framework delivers the notifications one after the other, each with its
  two arguments; an exception that leaves a notification ends the delivery.
\<close>

fun deliver_batch_ends ::
  "('d, 'v, 'w) model_evaluate \<Rightarrow> ('d, 'v) EvaluateDataset \<Rightarrow> 'w \<Rightarrow> (int \<times> 'l option) list
     \<Rightarrow> error option \<times> ('d, 'v) EvaluateDataset \<times> 'w" where
  "deliver_batch_ends model_evaluate self w [] = (None, self, w)"
| "deliver_batch_ends model_evaluate self w ((batch, logs) # rest) =
     (case on_train_batch_end model_evaluate self w batch logs of
        (Some e, self', w') \<Rightarrow> (Some e, self', w')
      | (None, self', w') \<Rightarrow> deliver_batch_ends model_evaluate self' w' rest)"

fun deliver_epoch_ends ::
  "('d, 'v, 'w) model_evaluate \<Rightarrow> ('d, 'v) EvaluateDataset \<Rightarrow> 'w \<Rightarrow> (int \<times> 'l option) list
     \<Rightarrow> error option \<times> ('d, 'v) EvaluateDataset \<times> 'w" where
  "deliver_epoch_ends model_evaluate self w [] = (None, self, w)"
| "deliver_epoch_ends model_evaluate self w ((batch, logs) # rest) =
     (case on_epoch_end model_evaluate self w batch logs of
        (Some e, self', w') \<Rightarrow> (Some e, self', w')
      | (None, self', w') \<Rightarrow> deliver_epoch_ends model_evaluate self' w' rest)"

subsection \<open>The result tables\<close>

text \<open>
  \<open>_unpack_list_dicts\<close>: the body of the inner loop, the inner loop over the items of
  one dictionary, and the outer loop over the list. \<open>res[metric].append(value)\<close> reads
  the list stored under the key, which raises \<open>KeyError\<close> for a missing key, and extends
  it in place.
\<close>

definition unpack_item :: "'v list dict \<Rightarrow> string \<times> 'v \<Rightarrow> error + 'v list dict" where
  "unpack_item res item =
     (case item of (metric, value) \<Rightarrow>
        (let res1 = (if \<not> dict_contains res metric then dict_setitem res metric [] else res)
         in case dict_getitem res1 metric of
              Inl e \<Rightarrow> Inl e
            | Inr vs \<Rightarrow> Inr (dict_setitem res1 metric (vs @ [value]))))"

fun unpack_items :: "'v list dict \<Rightarrow> 'v dict \<Rightarrow> error + 'v list dict" where
  "unpack_items res [] = Inr res"
| "unpack_items res (item # rest) =
     (case unpack_item res item of
        Inl e \<Rightarrow> Inl e
      | Inr res' \<Rightarrow> unpack_items res' rest)"

fun unpack_dicts :: "'v list dict \<Rightarrow> 'v dict list \<Rightarrow> error + 'v list dict" where
  "unpack_dicts res [] = Inr res"
| "unpack_dicts res (result # rest) =
     (case unpack_items res result of
        Inl e \<Rightarrow> Inl e
      | Inr res' \<Rightarrow> unpack_dicts res' rest)"

definition unpack_list_dicts :: "'v dict list \<Rightarrow> error + 'v list dict" where
  "unpack_list_dicts list_of_dicts = unpack_dicts [] list_of_dicts"

text \<open>The properties \<open>results_batches\<close> and \<open>results_epochs\<close>.\<close>

definition results_batches :: "('d, 'v) EvaluateDataset \<Rightarrow> error + 'v list dict" where
  "results_batches self =
     (if length (priv_results_batches self) = 0 then Inl (ValueError ''No values stored yet.'')
      else unpack_list_dicts (priv_results_batches self))"


subsection \<open>A stand-in for the model in the scenario of the notebook\<close>

text \<open>
  The notebook's last cells attach the callback to a model whose \<open>evaluate\<close> reports one
  metric, \<open>loss\<close>. \<open>loss_model_evaluate\<close> is such a model: the world is the list of
  the loss values that the successive calls will report; a call takes the first one.
\<close>

fun loss_model_evaluate :: "'d \<Rightarrow> 'v list \<Rightarrow> (error + 'v dict) \<times> 'v list" where
  "loss_model_evaluate ds [] = (Inl (External ''no value left''), [])"
| "loss_model_evaluate ds (v # vs) = (Inr [(''loss'', v)], vs)"

section \<open>Auxiliary facts\<close>

subsection \<open>Counting the multiples of the frequency\<close>

lemma div_pred:
  fixes F c :: int assumes "0 < F"
  shows "c div F = (c - 1) div F + (if c mod F = 0 then 1 else 0)"
proof (cases "c mod F = 0")
  case True
  then have "c = c div F * F" by (simp add: mod_eq_0_iff_dvd)
  then have "c - 1 = (F - 1) + (c div F - 1) * F" by (simp add: algebra_simps)
  then have "(c - 1) div F = ((F - 1) + (c div F - 1) * F) div F" by (rule arg_cong)
  also have "\<dots> = (c div F - 1) + (F - 1) div F" by (rule div_mult_self1) (use assms in simp)
  also have "(F - 1) div F = 0" using assms by simp
  finally show ?thesis using True by simp
next
  case False
  have r: "0 \<le> c mod F" "c mod F < F" using assms by simp_all
  with False have r1: "0 \<le> c mod F - 1" "c mod F - 1 < F" by linarith+
  have "c - 1 = (c mod F - 1) + (c div F) * F"
    using div_mult_mod_eq [of c F] by (simp add: algebra_simps)
  then have "(c - 1) div F = ((c mod F - 1) + (c div F) * F) div F" by (rule arg_cong)
  also have "\<dots> = c div F + (c mod F - 1) div F" by (rule div_mult_self1) (use assms in simp)
  also have "(c mod F - 1) div F = 0" using r1 by simp
  finally show ?thesis using False by simp
qed

lemma ceil_step:
  fixes F c :: int assumes "0 < F"
  shows "(c + F) div F = (c + F - 1) div F + (if c mod F = 0 then 1 else 0)"
proof -
  have "(c + F) div F = c div F + 1" using assms by simp
  moreover have "(c + F - 1) div F = (c - 1) div F + 1"
  proof -
    have "c + F - 1 = (c - 1) + F" by simp
    then show ?thesis using assms by (metis div_add_self2 less_irrefl)
  qed
  ultimately show ?thesis using div_pred [OF assms, of c] by simp
qed

lemma ceil_count:
  fixes F :: int assumes "0 < F"
  shows "(int n + F - 1) div F - (F - 1) div F = (if n = 0 then 0 else (int n - 1) div F + 1)"
proof -
  have z: "(F - 1) div F = 0" using assms by simp
  show ?thesis
  proof (cases "n = 0")
    case True
    with z show ?thesis by simp
  next
    case False
    have "int n + F - 1 = (int n - 1) + F" by simp
    then have "(int n + F - 1) div F = ((int n - 1) + F) div F" by (rule arg_cong)
    also have "\<dots> = (int n - 1) div F + 1" using assms by simp
    finally show ?thesis using z False by simp
  qed
qed

lemma ceil_closed:
  fixes F :: int assumes "0 < F"
  shows "(int n + F - 1) div F = (if n = 0 then 0 else (int n - 1) div F + 1)"
  using ceil_count [OF assms, of n] assms by simp

lemma ceil_Suc:
  fixes F :: int assumes "0 < F"
  shows "(int (Suc n) + F - 1) div F = (int n + F - 1) div F + (if int n mod F = 0 then 1 else 0)"
proof -
  have "int (Suc n) + F - 1 = int n + F" by simp
  then have "(int (Suc n) + F - 1) div F = (int n + F) div F" by (rule arg_cong)
  also have "\<dots> = (int n + F - 1) div F + (if int n mod F = 0 then 1 else 0)"
    by (rule ceil_step [OF assms])
  finally show ?thesis .
qed

lemma ceil_mono:
  fixes F :: int assumes "0 < F" and "m \<le> n"
  shows "(int m + F - 1) div F \<le> (int n + F - 1) div F"
  using assms by (intro zdiv_mono1) simp_all

subsection \<open>Dictionaries\<close>

lemma dict_contains_iff: "dict_contains d k \<longleftrightarrow> k \<in> fst ` set d"
  by (induction d) auto

lemma dict_getitem_map_of:
  "dict_getitem d k = (case map_of d k of None \<Rightarrow> Inl (KeyError k) | Some v \<Rightarrow> Inr v)"
  by (induction d) auto

lemma map_of_dict_setitem: "map_of (dict_setitem d k v) = (map_of d)(k \<mapsto> v)"
  by (induction d) (auto simp: fun_eq_iff)

lemma dict_setitem_fresh: "k \<notin> fst ` set d \<Longrightarrow> dict_setitem d k v = d @ [(k, v)]"
  by (induction d) auto

lemma keys_dict_setitem:
  "map fst (dict_setitem d k v) = (if k \<in> fst ` set d then map fst d else map fst d @ [k])"
  by (induction d) (auto simp: rev_image_eqI)

lemma dom_dict_setitem: "fst ` set (dict_setitem d k v) = insert k (fst ` set d)"
  by (simp add: dom_map_of_conv_image_fst [symmetric] map_of_dict_setitem)

lemma fold_rename:
  "distinct (map fst raw) \<Longrightarrow> \<forall>k \<in> fst ` set raw. k @ sfx \<notin> fst ` set acc \<Longrightarrow>
   fold (\<lambda>(name, value) acc. dict_setitem acc (name @ sfx) value) raw acc
     = acc @ map (\<lambda>(name, value). (name @ sfx, value)) raw"
proof (induction raw arbitrary: acc)
  case Nil
  then show ?case by simp
next
  case (Cons p raw)
  obtain n v where p: "p = (n, v)" by (cases p)
  have fresh: "n @ sfx \<notin> fst ` set acc" using Cons.prems(2) p by simp
  have "\<forall>k \<in> fst ` set raw. k @ sfx \<notin> fst ` set (acc @ [(n @ sfx, v)])"
    using Cons.prems p by auto
  with Cons.IH [of "acc @ [(n @ sfx, v)]"] Cons.prems(1) p fresh show ?case
    by (simp add: dict_setitem_fresh)
qed

lemma unpack_item_ok:
  "\<exists>res'. unpack_item res (m, v) = Inr res'
     \<and> map_of res' = (map_of res)(m \<mapsto> (case map_of res m of None \<Rightarrow> [] | Some vs \<Rightarrow> vs) @ [v])
     \<and> map fst res' = (if m \<in> fst ` set res then map fst res else map fst res @ [m])"
proof (cases "map_of res m")
  case None
  then have "m \<notin> fst ` set res" by (simp add: map_of_eq_None_iff)
  with None show ?thesis
    by (simp add: unpack_item_def dict_contains_iff dict_getitem_map_of
        map_of_dict_setitem keys_dict_setitem dom_dict_setitem)
next
  case (Some vs)
  then have "m \<in> fst ` set res" by (metis map_of_eq_None_iff option.distinct(1))
  with Some show ?thesis
    by (simp add: unpack_item_def dict_contains_iff dict_getitem_map_of
        map_of_dict_setitem keys_dict_setitem)
qed

lemma unpack_items_ok:
  "\<exists>res'. unpack_items res d = Inr res'
     \<and> (\<forall>k. map_of res' k =
           (case map_of res k of
              None \<Rightarrow> (if map snd (filter (\<lambda>p. fst p = k) d) = [] then None
                       else Some (map snd (filter (\<lambda>p. fst p = k) d)))
            | Some old \<Rightarrow> Some (old @ map snd (filter (\<lambda>p. fst p = k) d))))
     \<and> (distinct (map fst res) \<longrightarrow> distinct (map fst res'))"
proof (induction d arbitrary: res)
  case Nil
  show ?case by (simp split: option.splits)
next
  case (Cons p d)
  obtain m v where p: "p = (m, v)" by (cases p)
  from unpack_item_ok [of res m v] obtain r1 where
    r1: "unpack_item res (m, v) = Inr r1"
        "map_of r1 = (map_of res)(m \<mapsto> (case map_of res m of None \<Rightarrow> [] | Some vs \<Rightarrow> vs) @ [v])"
        "map fst r1 = (if m \<in> fst ` set res then map fst res else map fst res @ [m])"
    by blast
  from Cons.IH [of r1] obtain r2 where
    r2: "unpack_items r1 d = Inr r2"
        "\<And>k. map_of r2 k =
           (case map_of r1 k of
              None \<Rightarrow> (if map snd (filter (\<lambda>p. fst p = k) d) = [] then None
                       else Some (map snd (filter (\<lambda>p. fst p = k) d)))
            | Some old \<Rightarrow> Some (old @ map snd (filter (\<lambda>p. fst p = k) d)))"
        "distinct (map fst r1) \<longrightarrow> distinct (map fst r2)"
    by blast
  have "unpack_items res (p # d) = Inr r2" using p r1(1) r2(1) by simp
  moreover have "map_of r2 k =
           (case map_of res k of
              None \<Rightarrow> (if map snd (filter (\<lambda>q. fst q = k) (p # d)) = [] then None
                       else Some (map snd (filter (\<lambda>q. fst q = k) (p # d))))
            | Some old \<Rightarrow> Some (old @ map snd (filter (\<lambda>q. fst q = k) (p # d))))" for k
    using r2(2) [of k] r1(2) p by (auto split: option.splits)
  moreover have "distinct (map fst res) \<longrightarrow> distinct (map fst r2)"
    using r2(3) r1(3) by auto
  ultimately show ?case by blast
qed

lemma unpack_dicts_ok:
  "\<exists>res'. unpack_dicts res ds = Inr res'
     \<and> (\<forall>k. map_of res' k =
           (case map_of res k of
              None \<Rightarrow> (if map snd (filter (\<lambda>p. fst p = k) (concat ds)) = [] then None
                       else Some (map snd (filter (\<lambda>p. fst p = k) (concat ds))))
            | Some old \<Rightarrow> Some (old @ map snd (filter (\<lambda>p. fst p = k) (concat ds)))))
     \<and> (distinct (map fst res) \<longrightarrow> distinct (map fst res'))"
proof (induction ds arbitrary: res)
  case Nil
  show ?case by (simp split: option.splits)
next
  case (Cons d ds)
  from unpack_items_ok [of res d] obtain r1 where
    r1: "unpack_items res d = Inr r1"
        "\<And>k. map_of r1 k =
           (case map_of res k of
              None \<Rightarrow> (if map snd (filter (\<lambda>p. fst p = k) d) = [] then None
                       else Some (map snd (filter (\<lambda>p. fst p = k) d)))
            | Some old \<Rightarrow> Some (old @ map snd (filter (\<lambda>p. fst p = k) d)))"
        "distinct (map fst res) \<longrightarrow> distinct (map fst r1)"
    by blast
  from Cons.IH [of r1] obtain r2 where
    r2: "unpack_dicts r1 ds = Inr r2"
        "\<And>k. map_of r2 k =
           (case map_of r1 k of
              None \<Rightarrow> (if map snd (filter (\<lambda>p. fst p = k) (concat ds)) = [] then None
                       else Some (map snd (filter (\<lambda>p. fst p = k) (concat ds))))
            | Some old \<Rightarrow> Some (old @ map snd (filter (\<lambda>p. fst p = k) (concat ds))))"
        "distinct (map fst r1) \<longrightarrow> distinct (map fst r2)"
    by blast
  have "unpack_dicts res (d # ds) = Inr r2" using r1(1) r2(1) by simp
  moreover have "map_of r2 k =
           (case map_of res k of
              None \<Rightarrow> (if map snd (filter (\<lambda>q. fst q = k) (concat (d # ds))) = [] then None
                       else Some (map snd (filter (\<lambda>q. fst q = k) (concat (d # ds)))))
            | Some old \<Rightarrow> Some (old @ map snd (filter (\<lambda>q. fst q = k) (concat (d # ds)))))" for k
    using r2(2) [of k] r1(2) [of k] by (auto split: option.splits)
  moreover have "distinct (map fst res) \<longrightarrow> distinct (map fst r2)"
    using r2(3) r1(3) by auto
  ultimately show ?case by blast
qed

lemma unpack_list_dicts_ok:
  "\<exists>t. unpack_list_dicts ds = Inr t
     \<and> distinct (map fst t)
     \<and> (\<forall>k. map_of t k =
           (if map snd (filter (\<lambda>p. fst p = k) (concat ds)) = [] then None
            else Some (map snd (filter (\<lambda>p. fst p = k) (concat ds)))))"
  using unpack_dicts_ok [of "[]" ds] by (auto simp: unpack_list_dicts_def)

subsection \<open>One notification and a sequence of notifications, batch axis\<close>

lemma on_train_batch_end_fires:
  assumes "freq_batches s = Some F" and "F \<noteq> 0" and "batches_seen s mod F = 0"
    and "fst (ev (dataset s) w) = Inr raw"
  shows "\<exists>r. evaluate ev s w = (Inr r, snd (ev (dataset s) w))
           \<and> on_train_batch_end ev s w b l =
               (None,
                s\<lparr> priv_results_batches := priv_results_batches s @ [r],
                   batches_seen := batches_seen s + 1 \<rparr>,
                snd (ev (dataset s) w))"
proof -
  from assms(4) obtain w1 where "ev (dataset s) w = (Inr raw, w1)"
    by (cases "ev (dataset s) w") simp
  with assms(1-3) show ?thesis
    by (simp add: on_train_batch_end_def evaluate_def)
qed

lemma on_train_batch_end_skips:
  assumes "freq_batches s = Some F" and "F \<noteq> 0" and "batches_seen s mod F \<noteq> 0"
  shows "on_train_batch_end ev s w b l = (None, s\<lparr> batches_seen := batches_seen s + 1 \<rparr>, w)"
  using assms by (simp add: on_train_batch_end_def)

lemma deliver_batch_ends_append:
  "deliver_batch_ends ev s w (xs @ ys) =
     (case deliver_batch_ends ev s w xs of
        (Some e, s', w') \<Rightarrow> (Some e, s', w')
      | (None, s', w') \<Rightarrow> deliver_batch_ends ev s' w' ys)"
proof (induction xs arbitrary: s w)
  case Nil
  show ?case by simp
next
  case (Cons x xs)
  obtain b l where x: "x = (b, l)" by (cases x)
  obtain r s1 w1 where o: "on_train_batch_end ev s w b l = (r, s1, w1)"
    by (cases "on_train_batch_end ev s w b l")
  show ?case using Cons.IH [of s1 w1] x o by (cases r) simp_all
qed

lemma deliver_batch_ends_single:
  "deliver_batch_ends ev s w [n] =
     (case on_train_batch_end ev s w (fst n) (snd n) of
        (Some e, s', w') \<Rightarrow> (Some e, s', w')
      | (None, s', w') \<Rightarrow> (None, s', w'))"
  by (cases n) (simp split: prod.splits option.splits)

lemma deliver_batch_ends_prefix:
  fixes F :: int
  assumes pos: "0 < F" and f0: "freq_batches s0 = Some F" and c0: "batches_seen s0 = 0"
    and b0: "priv_results_batches s0 = []"
    and ok: "\<forall>k < nat ((int (length ns) + F - 1) div F).
               \<exists>r. fst (ev (dataset s0) (((\<lambda>x. snd (ev (dataset s0) x)) ^^ k) w)) = Inr r"
    and i: "i \<le> length ns"
  shows "\<exists>si. deliver_batch_ends ev s0 w (take i ns) =
               (None, si, ((\<lambda>x. snd (ev (dataset s0) x)) ^^ length (priv_results_batches si)) w)
           \<and> freq_batches si = Some F
           \<and> dataset si = dataset s0
           \<and> batches_seen si = int i
           \<and> int (length (priv_results_batches si)) = (int i + F - 1) div F"
  using i
proof (induction i)
  case 0
  from pos have "(int 0 + F - 1) div F = 0" by simp
  with f0 c0 b0 show ?case by simp
next
  case (Suc i)
  then have i: "i < length ns" by simp
  from Suc obtain si where
    run: "deliver_batch_ends ev s0 w (take i ns) =
            (None, si, ((\<lambda>x. snd (ev (dataset s0) x)) ^^ length (priv_results_batches si)) w)"
    and f: "freq_batches si = Some F" and d: "dataset si = dataset s0"
    and c: "batches_seen si = int i"
    and n: "int (length (priv_results_batches si)) = (int i + F - 1) div F"
    by auto
  let ?wi = "((\<lambda>x. snd (ev (dataset s0) x)) ^^ length (priv_results_batches si)) w"
  from pos have nz: "F \<noteq> 0" by simp
  have tk: "take (Suc i) ns = take i ns @ [ns ! i]"
    using i by (simp add: take_Suc_conv_app_nth)
  show ?case
  proof (cases "int i mod F = 0")
    case True
    have "(int (Suc i) + F - 1) div F = (int i + F - 1) div F + 1"
      using ceil_Suc [OF pos, of i] True by simp
    moreover have "(int (Suc i) + F - 1) div F \<le> (int (length ns) + F - 1) div F"
      using Suc.prems by (intro ceil_mono [OF pos])
    ultimately have "length (priv_results_batches si) < nat ((int (length ns) + F - 1) div F)"
      using n by linarith
    with ok obtain raw where "fst (ev (dataset s0) ?wi) = Inr raw" by blast
    then have "fst (ev (dataset si) ?wi) = Inr raw" by (simp add: d)
    from on_train_batch_end_fires [where ev = ev and s = si and w = ?wi and b = "fst (ns ! i)"
        and l = "snd (ns ! i)", OF f nz _ this] c True
    obtain r where
      st: "on_train_batch_end ev si ?wi (fst (ns ! i)) (snd (ns ! i)) =
             (None,
              si\<lparr> priv_results_batches := priv_results_batches si @ [r],
                  batches_seen := batches_seen si + 1 \<rparr>,
              snd (ev (dataset si) ?wi))"
      by auto
    let ?s' = "si\<lparr> priv_results_batches := priv_results_batches si @ [r],
                   batches_seen := batches_seen si + 1 \<rparr>"
    have "deliver_batch_ends ev s0 w (take (Suc i) ns) =
            (None, ?s', ((\<lambda>x. snd (ev (dataset s0) x)) ^^ length (priv_results_batches ?s')) w)"
      by (simp add: tk deliver_batch_ends_append deliver_batch_ends_single run st d)
    moreover have "int (length (priv_results_batches ?s')) = (int (Suc i) + F - 1) div F"
      using ceil_Suc [OF pos, of i] True n by simp
    moreover have "freq_batches ?s' = Some F" "dataset ?s' = dataset s0"
      "batches_seen ?s' = int (Suc i)"
      using f d c by simp_all
    ultimately show ?thesis by blast
  next
    case False
    from on_train_batch_end_skips [where ev = ev and s = si and w = ?wi and b = "fst (ns ! i)"
        and l = "snd (ns ! i)", OF f nz] c False
    have st: "on_train_batch_end ev si ?wi (fst (ns ! i)) (snd (ns ! i)) =
                (None, si\<lparr> batches_seen := batches_seen si + 1 \<rparr>, ?wi)"
      by simp
    let ?s' = "si\<lparr> batches_seen := batches_seen si + 1 \<rparr>"
    have "deliver_batch_ends ev s0 w (take (Suc i) ns) =
            (None, ?s', ((\<lambda>x. snd (ev (dataset s0) x)) ^^ length (priv_results_batches ?s')) w)"
      by (simp add: tk deliver_batch_ends_append deliver_batch_ends_single run st)
    moreover have "int (length (priv_results_batches ?s')) = (int (Suc i) + F - 1) div F"
      using ceil_Suc [OF pos, of i] False n by simp
    moreover have "freq_batches ?s' = Some F" "dataset ?s' = dataset s0"
      "batches_seen ?s' = int (Suc i)"
      using f d c by simp_all
    ultimately show ?thesis by blast
  qed
qed

lemma deliver_batch_ends_index:
  fixes F :: int
  assumes pos: "0 < F" and f0: "freq_batches s0 = Some F" and c0: "batches_seen s0 = 0"
    and b0: "priv_results_batches s0 = []"
    and ok: "\<forall>k < nat ((int (length ns) + F - 1) div F).
               \<exists>r. fst (ev (dataset s0) (((\<lambda>x. snd (ev (dataset s0) x)) ^^ k) w)) = Inr r"
    and i: "i < length ns"
  shows "\<exists>si wi. deliver_batch_ends ev s0 w (take i ns) = (None, si, wi)
           \<and> batches_seen si = int i
           \<and> (int i mod F = 0 \<longrightarrow>
                (\<exists>r. evaluate ev si wi = (Inr r, snd (ev (dataset s0) wi))
                   \<and> on_train_batch_end ev si wi (fst (ns ! i)) (snd (ns ! i)) =
                       (None,
                        si\<lparr> priv_results_batches := priv_results_batches si @ [r],
                            batches_seen := int i + 1 \<rparr>,
                        snd (ev (dataset s0) wi))))
           \<and> (int i mod F \<noteq> 0 \<longrightarrow>
                on_train_batch_end ev si wi (fst (ns ! i)) (snd (ns ! i)) =
                  (None, si\<lparr> batches_seen := int i + 1 \<rparr>, wi))"
proof -
  from i have "i \<le> length ns" by simp
  from deliver_batch_ends_prefix [where ev = ev and w = w, OF pos f0 c0 b0 ok this] obtain si where
    run: "deliver_batch_ends ev s0 w (take i ns) =
            (None, si, ((\<lambda>x. snd (ev (dataset s0) x)) ^^ length (priv_results_batches si)) w)"
    and f: "freq_batches si = Some F" and d: "dataset si = dataset s0"
    and c: "batches_seen si = int i"
    and n: "int (length (priv_results_batches si)) = (int i + F - 1) div F"
    by blast
  let ?wi = "((\<lambda>x. snd (ev (dataset s0) x)) ^^ length (priv_results_batches si)) w"
  from pos have nz: "F \<noteq> 0" by simp
  have fires: "\<exists>r. evaluate ev si ?wi = (Inr r, snd (ev (dataset s0) ?wi))
                   \<and> on_train_batch_end ev si ?wi (fst (ns ! i)) (snd (ns ! i)) =
                       (None,
                        si\<lparr> priv_results_batches := priv_results_batches si @ [r],
                            batches_seen := int i + 1 \<rparr>,
                        snd (ev (dataset s0) ?wi))"
    if m: "int i mod F = 0"
  proof -
    have "(int (Suc i) + F - 1) div F = (int i + F - 1) div F + 1"
      using ceil_Suc [OF pos, of i] m by simp
    moreover have "(int (Suc i) + F - 1) div F \<le> (int (length ns) + F - 1) div F"
      using i by (intro ceil_mono [OF pos]) simp
    ultimately have "length (priv_results_batches si) < nat ((int (length ns) + F - 1) div F)"
      using n by linarith
    with ok obtain raw where "fst (ev (dataset s0) ?wi) = Inr raw" by blast
    then have "fst (ev (dataset si) ?wi) = Inr raw" by (simp add: d)
    from on_train_batch_end_fires [where ev = ev and s = si and w = ?wi and b = "fst (ns ! i)"
        and l = "snd (ns ! i)", OF f nz _ this] c m
    show ?thesis by (simp add: d)
  qed
  have skips: "on_train_batch_end ev si ?wi (fst (ns ! i)) (snd (ns ! i)) =
                  (None, si\<lparr> batches_seen := int i + 1 \<rparr>, ?wi)"
    if m: "int i mod F \<noteq> 0"
    using on_train_batch_end_skips [where ev = ev and s = si and w = ?wi and b = "fst (ns ! i)"
        and l = "snd (ns ! i)", OF f nz] c m
    by simp
  show ?thesis
    by (rule exI [of _ si], rule exI [of _ ?wi]) (use run c fires skips in simp)
qed

subsection \<open>One notification and a sequence of notifications, epoch axis\<close>

lemma on_epoch_end_fires:
  assumes "freq_epochs s = Some F" and "F \<noteq> 0" and "epochs_seen s mod F = 0"
    and "fst (ev (dataset s) w) = Inr raw"
  shows "\<exists>r. evaluate ev s w = (Inr r, snd (ev (dataset s) w))
           \<and> on_epoch_end ev s w b l =
               (None,
                s\<lparr> priv_results_epochs := priv_results_epochs s @ [r],
                   epochs_seen := epochs_seen s + 1 \<rparr>,
                snd (ev (dataset s) w))"
proof -
  from assms(4) obtain w1 where "ev (dataset s) w = (Inr raw, w1)"
    by (cases "ev (dataset s) w") simp
  with assms(1-3) show ?thesis
    by (simp add: on_epoch_end_def evaluate_def)
qed

lemma on_epoch_end_skips:
  assumes "freq_epochs s = Some F" and "F \<noteq> 0" and "epochs_seen s mod F \<noteq> 0"
  shows "on_epoch_end ev s w b l = (None, s\<lparr> epochs_seen := epochs_seen s + 1 \<rparr>, w)"
  using assms by (simp add: on_epoch_end_def)

lemma deliver_epoch_ends_append:
  "deliver_epoch_ends ev s w (xs @ ys) =
     (case deliver_epoch_ends ev s w xs of
        (Some e, s', w') \<Rightarrow> (Some e, s', w')
      | (None, s', w') \<Rightarrow> deliver_epoch_ends ev s' w' ys)"
proof (induction xs arbitrary: s w)
  case Nil
  show ?case by simp
next
  case (Cons x xs)
  obtain b l where x: "x = (b, l)" by (cases x)
  obtain r s1 w1 where o: "on_epoch_end ev s w b l = (r, s1, w1)"
    by (cases "on_epoch_end ev s w b l")
  show ?case using Cons.IH [of s1 w1] x o by (cases r) simp_all
qed

lemma deliver_epoch_ends_single:
  "deliver_epoch_ends ev s w [n] =
     (case on_epoch_end ev s w (fst n) (snd n) of
        (Some e, s', w') \<Rightarrow> (Some e, s', w')
      | (None, s', w') \<Rightarrow> (None, s', w'))"
  by (cases n) (simp split: prod.splits option.splits)

lemma deliver_epoch_ends_prefix:
  fixes F :: int
  assumes pos: "0 < F" and f0: "freq_epochs s0 = Some F" and c0: "epochs_seen s0 = 0"
    and b0: "priv_results_epochs s0 = []"
    and ok: "\<forall>k < nat ((int (length ns) + F - 1) div F).
               \<exists>r. fst (ev (dataset s0) (((\<lambda>x. snd (ev (dataset s0) x)) ^^ k) w)) = Inr r"
    and i: "i \<le> length ns"
  shows "\<exists>si. deliver_epoch_ends ev s0 w (take i ns) =
               (None, si, ((\<lambda>x. snd (ev (dataset s0) x)) ^^ length (priv_results_epochs si)) w)
           \<and> freq_epochs si = Some F
           \<and> dataset si = dataset s0
           \<and> epochs_seen si = int i
           \<and> int (length (priv_results_epochs si)) = (int i + F - 1) div F"
  using i
proof (induction i)
  case 0
  from pos have "(int 0 + F - 1) div F = 0" by simp
  with f0 c0 b0 show ?case by simp
next
  case (Suc i)
  then have i: "i < length ns" by simp
  from Suc obtain si where
    run: "deliver_epoch_ends ev s0 w (take i ns) =
            (None, si, ((\<lambda>x. snd (ev (dataset s0) x)) ^^ length (priv_results_epochs si)) w)"
    and f: "freq_epochs si = Some F" and d: "dataset si = dataset s0"
    and c: "epochs_seen si = int i"
    and n: "int (length (priv_results_epochs si)) = (int i + F - 1) div F"
    by auto
  let ?wi = "((\<lambda>x. snd (ev (dataset s0) x)) ^^ length (priv_results_epochs si)) w"
  from pos have nz: "F \<noteq> 0" by simp
  have tk: "take (Suc i) ns = take i ns @ [ns ! i]"
    using i by (simp add: take_Suc_conv_app_nth)
  show ?case
  proof (cases "int i mod F = 0")
    case True
    have "(int (Suc i) + F - 1) div F = (int i + F - 1) div F + 1"
      using ceil_Suc [OF pos, of i] True by simp
    moreover have "(int (Suc i) + F - 1) div F \<le> (int (length ns) + F - 1) div F"
      using Suc.prems by (intro ceil_mono [OF pos])
    ultimately have "length (priv_results_epochs si) < nat ((int (length ns) + F - 1) div F)"
      using n by linarith
    with ok obtain raw where "fst (ev (dataset s0) ?wi) = Inr raw" by blast
    then have "fst (ev (dataset si) ?wi) = Inr raw" by (simp add: d)
    from on_epoch_end_fires [where ev = ev and s = si and w = ?wi and b = "fst (ns ! i)"
        and l = "snd (ns ! i)", OF f nz _ this] c True
    obtain r where
      st: "on_epoch_end ev si ?wi (fst (ns ! i)) (snd (ns ! i)) =
             (None,
              si\<lparr> priv_results_epochs := priv_results_epochs si @ [r],
                  epochs_seen := epochs_seen si + 1 \<rparr>,
              snd (ev (dataset si) ?wi))"
      by auto
    let ?s' = "si\<lparr> priv_results_epochs := priv_results_epochs si @ [r],
                   epochs_seen := epochs_seen si + 1 \<rparr>"
    have "deliver_epoch_ends ev s0 w (take (Suc i) ns) =
            (None, ?s', ((\<lambda>x. snd (ev (dataset s0) x)) ^^ length (priv_results_epochs ?s')) w)"
      by (simp add: tk deliver_epoch_ends_append deliver_epoch_ends_single run st d)
    moreover have "int (length (priv_results_epochs ?s')) = (int (Suc i) + F - 1) div F"
      using ceil_Suc [OF pos, of i] True n by simp
    moreover have "freq_epochs ?s' = Some F" "dataset ?s' = dataset s0"
      "epochs_seen ?s' = int (Suc i)"
      using f d c by simp_all
    ultimately show ?thesis by blast
  next
    case False
    from on_epoch_end_skips [where ev = ev and s = si and w = ?wi and b = "fst (ns ! i)"
        and l = "snd (ns ! i)", OF f nz] c False
    have st: "on_epoch_end ev si ?wi (fst (ns ! i)) (snd (ns ! i)) =
                (None, si\<lparr> epochs_seen := epochs_seen si + 1 \<rparr>, ?wi)"
      by simp
    let ?s' = "si\<lparr> epochs_seen := epochs_seen si + 1 \<rparr>"
    have "deliver_epoch_ends ev s0 w (take (Suc i) ns) =
            (None, ?s', ((\<lambda>x. snd (ev (dataset s0) x)) ^^ length (priv_results_epochs ?s')) w)"
      by (simp add: tk deliver_epoch_ends_append deliver_epoch_ends_single run st)
    moreover have "int (length (priv_results_epochs ?s')) = (int (Suc i) + F - 1) div F"
      using ceil_Suc [OF pos, of i] False n by simp
    moreover have "freq_epochs ?s' = Some F" "dataset ?s' = dataset s0"
      "epochs_seen ?s' = int (Suc i)"
      using f d c by simp_all
    ultimately show ?thesis by blast
  qed
qed

lemma deliver_epoch_ends_index:
  fixes F :: int
  assumes pos: "0 < F" and f0: "freq_epochs s0 = Some F" and c0: "epochs_seen s0 = 0"
    and b0: "priv_results_epochs s0 = []"
    and ok: "\<forall>k < nat ((int (length ns) + F - 1) div F).
               \<exists>r. fst (ev (dataset s0) (((\<lambda>x. snd (ev (dataset s0) x)) ^^ k) w)) = Inr r"
    and i: "i < length ns"
  shows "\<exists>si wi. deliver_epoch_ends ev s0 w (take i ns) = (None, si, wi)
           \<and> epochs_seen si = int i
           \<and> (int i mod F = 0 \<longrightarrow>
                (\<exists>r. evaluate ev si wi = (Inr r, snd (ev (dataset s0) wi))
                   \<and> on_epoch_end ev si wi (fst (ns ! i)) (snd (ns ! i)) =
                       (None,
                        si\<lparr> priv_results_epochs := priv_results_epochs si @ [r],
                            epochs_seen := int i + 1 \<rparr>,
                        snd (ev (dataset s0) wi))))
           \<and> (int i mod F \<noteq> 0 \<longrightarrow>
                on_epoch_end ev si wi (fst (ns ! i)) (snd (ns ! i)) =
                  (None, si\<lparr> epochs_seen := int i + 1 \<rparr>, wi))"
proof -
  from i have "i \<le> length ns" by simp
  from deliver_epoch_ends_prefix [where ev = ev and w = w, OF pos f0 c0 b0 ok this] obtain si where
    run: "deliver_epoch_ends ev s0 w (take i ns) =
            (None, si, ((\<lambda>x. snd (ev (dataset s0) x)) ^^ length (priv_results_epochs si)) w)"
    and f: "freq_epochs si = Some F" and d: "dataset si = dataset s0"
    and c: "epochs_seen si = int i"
    and n: "int (length (priv_results_epochs si)) = (int i + F - 1) div F"
    by blast
  let ?wi = "((\<lambda>x. snd (ev (dataset s0) x)) ^^ length (priv_results_epochs si)) w"
  from pos have nz: "F \<noteq> 0" by simp
  have fires: "\<exists>r. evaluate ev si ?wi = (Inr r, snd (ev (dataset s0) ?wi))
                   \<and> on_epoch_end ev si ?wi (fst (ns ! i)) (snd (ns ! i)) =
                       (None,
                        si\<lparr> priv_results_epochs := priv_results_epochs si @ [r],
                            epochs_seen := int i + 1 \<rparr>,
                        snd (ev (dataset s0) ?wi))"
    if m: "int i mod F = 0"
  proof -
    have "(int (Suc i) + F - 1) div F = (int i + F - 1) div F + 1"
      using ceil_Suc [OF pos, of i] m by simp
    moreover have "(int (Suc i) + F - 1) div F \<le> (int (length ns) + F - 1) div F"
      using i by (intro ceil_mono [OF pos]) simp
    ultimately have "length (priv_results_epochs si) < nat ((int (length ns) + F - 1) div F)"
      using n by linarith
    with ok obtain raw where "fst (ev (dataset s0) ?wi) = Inr raw" by blast
    then have "fst (ev (dataset si) ?wi) = Inr raw" by (simp add: d)
    from on_epoch_end_fires [where ev = ev and s = si and w = ?wi and b = "fst (ns ! i)"
        and l = "snd (ns ! i)", OF f nz _ this] c m
    show ?thesis by (simp add: d)
  qed
  have skips: "on_epoch_end ev si ?wi (fst (ns ! i)) (snd (ns ! i)) =
                  (None, si\<lparr> epochs_seen := int i + 1 \<rparr>, ?wi)"
    if m: "int i mod F \<noteq> 0"
    using on_epoch_end_skips [where ev = ev and s = si and w = ?wi and b = "fst (ns ! i)"
        and l = "snd (ns ! i)", OF f nz] c m
    by simp
  show ?thesis
    by (rule exI [of _ si], rule exI [of _ ?wi]) (use run c fires skips in simp)
qed

subsection \<open>The values collected for one metric\<close>

lemma values_of_key:
  "distinct (map fst d) \<Longrightarrow>
   map snd (filter (\<lambda>p. fst p = k) d) = (case map_of d k of None \<Rightarrow> [] | Some v \<Rightarrow> [v])"
proof (induction d)
  case Nil
  show ?case by simp
next
  case (Cons p d)
  obtain k' v' where p: "p = (k', v')" by (cases p)
  show ?case
  proof (cases "k' = k")
    case True
    with Cons.prems p have "k \<notin> fst ` set d" by simp
    then have "filter (\<lambda>p. fst p = k) d = []" by (auto simp: filter_empty_conv)
    with True p show ?thesis by simp
  next
    case False
    with Cons p show ?thesis by simp
  qed
qed

lemma values_of_key_concat:
  "\<forall>d \<in> set ds. distinct (map fst d) \<Longrightarrow>
   map snd (filter (\<lambda>p. fst p = k) (concat ds)) = List.map_filter (\<lambda>d. map_of d k) ds"
proof (induction ds)
  case Nil
  show ?case by (simp add: map_filter_simps)
next
  case (Cons d ds)
  then have "map snd (filter (\<lambda>p. fst p = k) d) = (case map_of d k of None \<Rightarrow> [] | Some v \<Rightarrow> [v])"
    by (simp add: values_of_key)
  with Cons show ?case by (simp add: map_filter_simps split: option.splits)
qed

lemma length_map_filter_contains:
  "length (List.map_filter (\<lambda>d. map_of d k) ds) = length (filter (\<lambda>d. dict_contains d k) ds)"
proof (induction ds)
  case Nil
  show ?case by (simp add: map_filter_simps)
next
  case (Cons d ds)
  have "dict_contains d k \<longleftrightarrow> map_of d k \<noteq> None"
    by (simp add: dict_contains_iff map_of_eq_None_iff)
  with Cons show ?case by (auto simp: map_filter_simps split: option.splits)
qed


lemma table_entry:
  assumes t: "unpack_list_dicts ds = Inr t" and e: "(k, vs) \<in> set t"
  shows "vs = map snd (filter (\<lambda>p. fst p = k) (concat ds)) \<and> vs \<noteq> []"
proof -
  from unpack_list_dicts_ok [of ds] t have d: "distinct (map fst t)"
    and m: "\<And>k. map_of t k =
           (if map snd (filter (\<lambda>p. fst p = k) (concat ds)) = [] then None
            else Some (map snd (filter (\<lambda>p. fst p = k) (concat ds))))"
    by auto
  from d e have "map_of t k = Some vs" by simp
  with m [of k] show ?thesis by (auto split: if_splits)
qed


lemma table_keys:
  assumes t: "unpack_list_dicts ds = Inr t"
  shows "fst ` set t = (\<Union>d \<in> set ds. fst ` set d)"
proof -
  from unpack_list_dicts_ok [of ds] t have
    m: "\<And>k. map_of t k =
           (if map snd (filter (\<lambda>p. fst p = k) (concat ds)) = [] then None
            else Some (map snd (filter (\<lambda>p. fst p = k) (concat ds))))"
    by auto
  have "k \<in> fst ` set t \<longleftrightarrow> k \<in> (\<Union>d \<in> set ds. fst ` set d)" for k
  proof -
    have "k \<in> fst ` set t \<longleftrightarrow> map_of t k \<noteq> None"
      by (simp add: map_of_eq_None_iff)
    also have "\<dots> \<longleftrightarrow> filter (\<lambda>p. fst p = k) (concat ds) \<noteq> []"
      by (simp add: m)
    also have "\<dots> \<longleftrightarrow> (\<exists>p \<in> set (concat ds). fst p = k)"
      by (simp add: filter_empty_conv)
    also have "\<dots> \<longleftrightarrow> k \<in> (\<Union>d \<in> set ds. fst ` set d)"
      by auto
    finally show ?thesis .
  qed
  then show ?thesis by blast
qed


subsection \<open>The renamed dictionary\<close>

lemma evaluate_renames:
  assumes "distinct (map fst raw)" and "ev (dataset s) w = (Inr raw, w')"
  shows "evaluate ev s w = (Inr (map (\<lambda>(name, value). (name @ append_str s, value)) raw), w')"
  using assms fold_rename [of raw "append_str s" "[]"] by (simp add: evaluate_def)

section \<open>The claims\<close>

subsection \<open>C1\<close>

text \<open>
  Claim C1. Let the frequency \<open>F\<close> be positive, let \<open>B\<close> be the number of batch-end
  notifications \<open>ns\<close> delivered to a freshly constructed evaluator, and let each call of
  the model's \<open>evaluate\<close> that is made succeed: the calls made are the first
  \<open>floor((B - 1) / F) + 1\<close> calls (none when \<open>B = 0\<close>) of the chain that starts in the
  world \<open>w\<close>, each call leaving the world of the next.

  Then the delivery returns normally, leaves \<open>batches_seen\<close> at \<open>B\<close> and
  \<open>_results_batches\<close> with \<open>floor((B - 1) / F) + 1\<close> entries when \<open>B \<ge> 1\<close> and none
  when \<open>B = 0\<close>, and the world it leaves is the one reached by as many calls of the model's
  \<open>evaluate\<close> as there are entries. The notification of index \<open>i\<close> finds the counter
  at \<open>i\<close>. When \<open>i mod F = 0\<close> it performs one evaluation cycle: the model's
  \<open>evaluate\<close> is called once, on the current world, the result of the cycle is appended,
  the counter is incremented and nothing else changes. When \<open>i mod F \<noteq> 0\<close> it performs
  none: the world is unchanged, and the object changes in its counter only. The same holds
  for the epoch-end notifications with \<open>epochs_seen\<close>, \<open>freq_epochs\<close> and
  \<open>_results_epochs\<close>. The second copy of the notebook in the repository, the one without
  the \<open>append\<close> argument, has the same two notification methods.
\<close>

theorem C1_cycles_fire_every_F:
  fixes F :: int and ev :: "('d, 'v, 'w) model_evaluate"
  assumes pos: "0 < F"
    and ok: "\<forall>k < (if length ns = 0 then 0 else nat ((int (length ns) - 1) div F + 1)).
               \<exists>raw. fst (ev ds (((\<lambda>x. snd (ev ds x)) ^^ k) w)) = Inr raw"
  shows
    "(\<exists>s. deliver_batch_ends ev (init isd ds fe (Some F) app) w ns =
            (None, s, ((\<lambda>x. snd (ev ds x)) ^^ length (priv_results_batches s)) w)
         \<and> batches_seen s = int (length ns)
         \<and> int (length (priv_results_batches s)) =
             (if length ns = 0 then 0 else (int (length ns) - 1) div F + 1))
     \<and> (\<forall>i < length ns. \<exists>si wi.
           deliver_batch_ends ev (init isd ds fe (Some F) app) w (take i ns) = (None, si, wi)
         \<and> batches_seen si = int i
         \<and> (int i mod F = 0 \<longrightarrow>
              (\<exists>r. evaluate ev si wi = (Inr r, snd (ev ds wi))
                 \<and> on_train_batch_end ev si wi (fst (ns ! i)) (snd (ns ! i)) =
                     (None,
                      si\<lparr> priv_results_batches := priv_results_batches si @ [r],
                          batches_seen := int i + 1 \<rparr>,
                      snd (ev ds wi))))
         \<and> (int i mod F \<noteq> 0 \<longrightarrow>
              on_train_batch_end ev si wi (fst (ns ! i)) (snd (ns ! i)) =
                (None, si\<lparr> batches_seen := int i + 1 \<rparr>, wi)))
     \<and> (\<exists>s. deliver_epoch_ends ev (init isd ds (Some F) fb app) w ns =
            (None, s, ((\<lambda>x. snd (ev ds x)) ^^ length (priv_results_epochs s)) w)
         \<and> epochs_seen s = int (length ns)
         \<and> int (length (priv_results_epochs s)) =
             (if length ns = 0 then 0 else (int (length ns) - 1) div F + 1))
     \<and> (\<forall>i < length ns. \<exists>si wi.
           deliver_epoch_ends ev (init isd ds (Some F) fb app) w (take i ns) = (None, si, wi)
         \<and> epochs_seen si = int i
         \<and> (int i mod F = 0 \<longrightarrow>
              (\<exists>r. evaluate ev si wi = (Inr r, snd (ev ds wi))
                 \<and> on_epoch_end ev si wi (fst (ns ! i)) (snd (ns ! i)) =
                     (None,
                      si\<lparr> priv_results_epochs := priv_results_epochs si @ [r],
                          epochs_seen := int i + 1 \<rparr>,
                      snd (ev ds wi))))
         \<and> (int i mod F \<noteq> 0 \<longrightarrow>
              on_epoch_end ev si wi (fst (ns ! i)) (snd (ns ! i)) =
                (None, si\<lparr> epochs_seen := int i + 1 \<rparr>, wi)))"
    (is "?B1 \<and> ?B2 \<and> ?E1 \<and> ?E2")
proof -
  let ?b0 = "init isd ds fe (Some F) app :: ('d, 'v) EvaluateDataset"
  let ?e0 = "init isd ds (Some F) fb app :: ('d, 'v) EvaluateDataset"
  have fb: "freq_batches ?b0 = Some F" and cb: "batches_seen ?b0 = 0"
    and lb: "priv_results_batches ?b0 = []" and db: "dataset ?b0 = ds"
    by (simp_all add: init_def convert_to_dataset_def)
  have fe: "freq_epochs ?e0 = Some F" and ce: "epochs_seen ?e0 = 0"
    and le: "priv_results_epochs ?e0 = []" and de: "dataset ?e0 = ds"
    by (simp_all add: init_def convert_to_dataset_def)
  have cl: "(int (length ns) + F - 1) div F =
              (if length ns = 0 then 0 else (int (length ns) - 1) div F + 1)"
    by (rule ceil_closed [OF pos])
  have ok': "\<forall>k < nat ((int (length ns) + F - 1) div F).
               \<exists>raw. fst (ev ds (((\<lambda>x. snd (ev ds x)) ^^ k) w)) = Inr raw"
    using ok by (simp only: cl) (simp split: if_splits)
  have okb: "\<forall>k < nat ((int (length ns) + F - 1) div F).
               \<exists>raw. fst (ev (dataset ?b0) (((\<lambda>x. snd (ev (dataset ?b0) x)) ^^ k) w)) = Inr raw"
    using ok' by (simp only: db)
  have oke: "\<forall>k < nat ((int (length ns) + F - 1) div F).
               \<exists>raw. fst (ev (dataset ?e0) (((\<lambda>x. snd (ev (dataset ?e0) x)) ^^ k) w)) = Inr raw"
    using ok' by (simp only: de)
  have b1: ?B1
    using deliver_batch_ends_prefix [where ev = ev and w = w and i = "length ns",
        OF pos fb cb lb okb order_refl]
    by (simp only: db cl take_all [OF order_refl]) blast
  have e1: ?E1
    using deliver_epoch_ends_prefix [where ev = ev and w = w and i = "length ns",
        OF pos fe ce le oke order_refl]
    by (simp only: de cl take_all [OF order_refl]) blast
  have b2: ?B2
  proof (intro allI impI)
    fix i assume "i < length ns"
    from deliver_batch_ends_index [where ev = ev and w = w, OF pos fb cb lb okb this]
    show "\<exists>si wi.
           deliver_batch_ends ev ?b0 w (take i ns) = (None, si, wi)
         \<and> batches_seen si = int i
         \<and> (int i mod F = 0 \<longrightarrow>
              (\<exists>r. evaluate ev si wi = (Inr r, snd (ev ds wi))
                 \<and> on_train_batch_end ev si wi (fst (ns ! i)) (snd (ns ! i)) =
                     (None,
                      si\<lparr> priv_results_batches := priv_results_batches si @ [r],
                          batches_seen := int i + 1 \<rparr>,
                      snd (ev ds wi))))
         \<and> (int i mod F \<noteq> 0 \<longrightarrow>
              on_train_batch_end ev si wi (fst (ns ! i)) (snd (ns ! i)) =
                (None, si\<lparr> batches_seen := int i + 1 \<rparr>, wi))"
      by (simp only: db)
  qed
  have e2: ?E2
  proof (intro allI impI)
    fix i assume "i < length ns"
    from deliver_epoch_ends_index [where ev = ev and w = w, OF pos fe ce le oke this]
    show "\<exists>si wi.
           deliver_epoch_ends ev ?e0 w (take i ns) = (None, si, wi)
         \<and> epochs_seen si = int i
         \<and> (int i mod F = 0 \<longrightarrow>
              (\<exists>r. evaluate ev si wi = (Inr r, snd (ev ds wi))
                 \<and> on_epoch_end ev si wi (fst (ns ! i)) (snd (ns ! i)) =
                     (None,
                      si\<lparr> priv_results_epochs := priv_results_epochs si @ [r],
                          epochs_seen := int i + 1 \<rparr>,
                      snd (ev ds wi))))
         \<and> (int i mod F \<noteq> 0 \<longrightarrow>
              on_epoch_end ev si wi (fst (ns ! i)) (snd (ns ! i)) =
                (None, si\<lparr> epochs_seen := int i + 1 \<rparr>, wi))"
      by (simp only: de)
  qed
  from b1 b2 e1 e2 show ?thesis by (intro conjI)
qed

text \<open>
  Frequency 3, four notifications and a model with exactly two values to report: both calls
  that are made succeed, a third one would not; two entries, and no value left.
\<close>

theorem C1_cycles_fire_every_F_witness:
  "(0::int) < 3
   \<and> fst (loss_model_evaluate () [1 :: int, 2]) = Inr [(''loss'', 1)]
   \<and> fst (loss_model_evaluate () (snd (loss_model_evaluate () [1 :: int, 2]))) = Inr [(''loss'', 2)]
   \<and> int (length (priv_results_batches (fst (snd (deliver_batch_ends loss_model_evaluate
         (init True () None (Some 3) '''') [1 :: int, 2]
         [(0, None), (1, None), (2, None), (3, None :: unit option)]))))) = (4 - 1) div 3 + 1
   \<and> snd (snd (deliver_batch_ends loss_model_evaluate
         (init True () None (Some 3) '''') [1 :: int, 2]
         [(0, None), (1, None), (2, None), (3, None :: unit option)])) = []"
proof -
  have h1: "(0::int) < 3" by simp
  have h2: "\<forall>k < (if length [(0::int, None), (1, None), (2, None), (3, None :: unit option)] = 0
                  then 0
                  else nat ((int (length [(0::int, None), (1, None), (2, None),
                                          (3, None :: unit option)]) - 1) div 3 + 1)).
              \<exists>raw. fst (loss_model_evaluate ()
                       (((\<lambda>x. snd (loss_model_evaluate () x)) ^^ k) [1 :: int, 2])) = Inr raw"
  proof (intro allI impI)
    fix k :: nat
    assume "k < (if length [(0::int, None), (1, None), (2, None), (3, None :: unit option)] = 0
                  then 0
                  else nat ((int (length [(0::int, None), (1, None), (2, None),
                                          (3, None :: unit option)]) - 1) div 3 + 1))"
    then have "k < 2" by simp
    then have "k = 0 \<or> k = 1" by auto
    then show "\<exists>raw. fst (loss_model_evaluate ()
                       (((\<lambda>x. snd (loss_model_evaluate () x)) ^^ k) [1 :: int, 2])) = Inr raw"
      by auto
  qed
  have "\<exists>s. deliver_batch_ends loss_model_evaluate (init True () None (Some 3) '''') [1 :: int, 2]
           [(0, None), (1, None), (2, None), (3, None :: unit option)] =
            (None, s,
             ((\<lambda>x. snd (loss_model_evaluate () x)) ^^ length (priv_results_batches s)) [1, 2])
         \<and> batches_seen s = int (length [(0::int, None), (1, None), (2, None), (3, None :: unit option)])
         \<and> int (length (priv_results_batches s)) =
             (if length [(0::int, None), (1, None), (2, None), (3, None :: unit option)] = 0 then 0
              else (int (length [(0::int, None), (1, None), (2, None), (3, None :: unit option)]) - 1) div 3 + 1)"
    by (rule conjunct1 [OF C1_cycles_fire_every_F [where ev = loss_model_evaluate and ds = "()"
          and w = "[1 :: int, 2]" and isd = True and fe = None and app = "''''"
          and ns = "[(0, None), (1, None), (2, None), (3, None :: unit option)]", OF h1 h2]])
  then obtain s where
    run: "deliver_batch_ends loss_model_evaluate (init True () None (Some 3) '''') [1 :: int, 2]
           [(0, None), (1, None), (2, None), (3, None :: unit option)] =
            (None, s,
             ((\<lambda>x. snd (loss_model_evaluate () x)) ^^ length (priv_results_batches s)) [1, 2])"
    and len: "int (length (priv_results_batches s)) = 2"
    by auto
  from len have "length (priv_results_batches s) = Suc (Suc 0)" by simp
  with run h1 show ?thesis by simp
qed

subsection \<open>C2\<close>

text \<open>
  Claim C2 says that a frequency that is not a positive integer makes the construction fail.
  The constructor checks nothing: with \<open>freq_batches = 0\<close> and with \<open>freq_batches = -1\<close>
  it returns the object with that frequency stored. The zero frequency shows only at the
  first batch-end notification, as the \<open>ZeroDivisionError\<close> of \<open>%\<close>; with \<open>-1\<close> the
  notification returns normally.
\<close>

theorem C2_construction_validates_counterexample:
  "(init True () None (Some 0) '''' :: (unit, int) EvaluateDataset) =
     \<lparr> dataset = (), freq_epochs = None, freq_batches = Some 0, append_str = '''',
       batches_seen = 0, epochs_seen = 0, priv_results_batches = [], priv_results_epochs = [] \<rparr>
   \<and> (init True () None (Some (- 1)) '''' :: (unit, int) EvaluateDataset) =
     \<lparr> dataset = (), freq_epochs = None, freq_batches = Some (- 1), append_str = '''',
       batches_seen = 0, epochs_seen = 0, priv_results_batches = [], priv_results_epochs = [] \<rparr>
   \<and> on_train_batch_end loss_model_evaluate (init True () None (Some 0) '''') [1 :: int]
         0 (None :: unit option)
       = (Some ZeroDivisionError, init True () None (Some 0) '''', [1])
   \<and> fst (on_train_batch_end loss_model_evaluate (init True () None (Some (- 1)) '''')
         [1 :: int] 0 (None :: unit option)) = None"
  by (simp add: init_def on_train_batch_end_def evaluate_def)

text \<open>
  Claim C2, amended. The construction succeeds for every pair of frequencies (absent, positive,
  zero or negative) and stores them unchanged; the object it returns has both counters at 0
  and both result sequences empty.
\<close>

theorem C2_construction_total:
  "init isd ds fe fb app =
     \<lparr> dataset = ds, freq_epochs = fe, freq_batches = fb, append_str = app,
       batches_seen = 0, epochs_seen = 0, priv_results_batches = [], priv_results_epochs = [] \<rparr>"
  by (simp add: init_def convert_to_dataset_def)

subsection \<open>C3\<close>

text \<open>
  Claim C3 says that every notification delivered increments its counter by 1. A batch-end
  notification to an evaluator whose batch axis is disabled leaves \<open>batches_seen\<close> at 0,
  and so does one with frequency 1 during which the model's \<open>evaluate\<close> raises.
\<close>

theorem C3_every_notification_increments_counterexample:
  "batches_seen (fst (snd (on_train_batch_end loss_model_evaluate
       (init True () None None '''') [1 :: int] 0 (None :: unit option))))
     \<noteq> batches_seen (init True () None None '''' :: (unit, int) EvaluateDataset) + 1
   \<and> batches_seen (fst (snd (on_train_batch_end loss_model_evaluate
       (init True () None (Some 1) '''') ([] :: int list) 0 (None :: unit option))))
     \<noteq> batches_seen (init True () None (Some 1) '''' :: (unit, int) EvaluateDataset) + 1"
  by (simp add: init_def on_train_batch_end_def evaluate_def)

text \<open>
  Claim C3, amended. Both counters start at 0. A notification changes its own counter only,
  and never decreases it: the counter afterwards is its prior value plus 1 when the axis is
  enabled and the notification returns normally, whether or not the trigger fired, and its
  prior value otherwise (axis disabled, or an exception left the notification). The
  notification returns normally whenever the frequency is not zero and the evaluation, if
  the trigger fires, succeeds.
\<close>

theorem C3_counters:
  "batches_seen (init isd ds fe fb app) = 0
   \<and> epochs_seen (init isd ds fe fb app) = 0
   \<and> batches_seen (fst (snd (on_train_batch_end ev s w b l))) =
       (if freq_batches s \<noteq> None \<and> fst (on_train_batch_end ev s w b l) = None
        then batches_seen s + 1 else batches_seen s)
   \<and> epochs_seen (fst (snd (on_train_batch_end ev s w b l))) = epochs_seen s
   \<and> epochs_seen (fst (snd (on_epoch_end ev s w b l))) =
       (if freq_epochs s \<noteq> None \<and> fst (on_epoch_end ev s w b l) = None
        then epochs_seen s + 1 else epochs_seen s)
   \<and> batches_seen (fst (snd (on_epoch_end ev s w b l))) = batches_seen s
   \<and> ((\<exists>F. freq_batches s = Some F \<and> F \<noteq> 0
          \<and> (batches_seen s mod F \<noteq> 0 \<or> (\<exists>r. fst (ev (dataset s) w) = Inr r)))
        \<longrightarrow> fst (on_train_batch_end ev s w b l) = None)
   \<and> ((\<exists>F. freq_epochs s = Some F \<and> F \<noteq> 0
          \<and> (epochs_seen s mod F \<noteq> 0 \<or> (\<exists>r. fst (ev (dataset s) w) = Inr r)))
        \<longrightarrow> fst (on_epoch_end ev s w b l) = None)"
proof -
  obtain r w1 where ev: "ev (dataset s) w = (r, w1)" by (cases "ev (dataset s) w")
  show ?thesis
    by (cases r)
      (auto simp: init_def on_train_batch_end_def on_epoch_end_def evaluate_def ev
        split: option.splits)
qed

text \<open>
  Frequency 2: the counter goes from 1 to 2 without a cycle, and from 0 to 1 with one.
\<close>

theorem C3_counters_witness:
  "batches_seen (fst (snd (on_train_batch_end loss_model_evaluate
       (init True () None (Some 2) '''' \<lparr> batches_seen := 1 \<rparr>) [1 :: int] 0
       (None :: unit option)))) = 2
   \<and> batches_seen (fst (snd (on_train_batch_end loss_model_evaluate
       (init True () None (Some 2) '''') [1 :: int] 0 (None :: unit option)))) = 1
   \<and> fst (on_train_batch_end loss_model_evaluate
       (init True () None (Some 2) '''') [1 :: int] 0 (None :: unit option)) = None"
  using C3_counters [where isd = True and ds = "()" and fe = None and fb = "Some 2"
      and app = "''''" and ev = loss_model_evaluate and w = "[1 :: int]" and b = 0
      and l = "None :: unit option"
      and s = "init True () None (Some 2) ''''"]
    C3_counters [where isd = True and ds = "()" and fe = None and fb = "Some 2"
      and app = "''''" and ev = loss_model_evaluate and w = "[1 :: int]" and b = 0
      and l = "None :: unit option"
      and s = "init True () None (Some 2) '''' \<lparr> batches_seen := 1 \<rparr>"]
  by (simp add: init_def)

subsection \<open>C4\<close>

text \<open>
  Claim C4. When the frequency of an axis is \<open>None\<close>, a notification on that axis returns
  normally with the object unchanged in every field, the counter included, and with the
  world unchanged: the model's \<open>evaluate\<close> is not called and nothing is appended.
\<close>

theorem C4_disabled_axis_is_noop:
  "(freq_batches s = None \<longrightarrow> on_train_batch_end ev s w b l = (None, s, w))
   \<and> (freq_epochs s = None \<longrightarrow> on_epoch_end ev s w b l = (None, s, w))"
  by (simp add: on_train_batch_end_def on_epoch_end_def)

text \<open>Both axes disabled; the pending loss value is still there afterwards.\<close>

theorem C4_disabled_axis_is_noop_witness:
  "freq_batches (init True () None None ''x'' :: (unit, int) EvaluateDataset) = None
   \<and> freq_epochs (init True () None None ''x'' :: (unit, int) EvaluateDataset) = None
   \<and> on_train_batch_end loss_model_evaluate (init True () None None ''x'') [1 :: int] 7
        (None :: unit option) = (None, init True () None None ''x'', [1])
   \<and> on_epoch_end loss_model_evaluate (init True () None None ''x'') [1 :: int] 7
        (None :: unit option) = (None, init True () None None ''x'', [1])"
  using C4_disabled_axis_is_noop [where s = "init True () None None ''x''"
      and ev = loss_model_evaluate and w = "[1 :: int]" and b = 7 and l = "None :: unit option"]
  by (simp add: init_def)

subsection \<open>C5\<close>

text \<open>
  Claim C5. When the model's \<open>evaluate\<close> returns the dictionary \<open>raw\<close>, the evaluation
  cycle returns the dictionary with the same items in the same order, every key \<open>name\<close>
  replaced by \<open>name + self.append\<close> and every value unchanged; on a notification whose
  trigger fires, this dictionary is the one entry appended to the result sequence of the
  axis. The keys of a Python dictionary are distinct.
\<close>

theorem C5_metric_names_get_suffix:
  assumes "distinct (map fst raw)" and "ev (dataset s) w = (Inr raw, w')"
  shows
    "evaluate ev s w = (Inr (map (\<lambda>(name, value). (name @ append_str s, value)) raw), w')
     \<and> ((\<exists>F. freq_batches s = Some F \<and> F \<noteq> 0 \<and> batches_seen s mod F = 0) \<longrightarrow>
          priv_results_batches (fst (snd (on_train_batch_end ev s w b l))) =
            priv_results_batches s @ [map (\<lambda>(name, value). (name @ append_str s, value)) raw])
     \<and> ((\<exists>F. freq_epochs s = Some F \<and> F \<noteq> 0 \<and> epochs_seen s mod F = 0) \<longrightarrow>
          priv_results_epochs (fst (snd (on_epoch_end ev s w b l))) =
            priv_results_epochs s @ [map (\<lambda>(name, value). (name @ append_str s, value)) raw])"
  using evaluate_renames [where ev = ev and s = s and w = w, OF assms]
  by (auto simp: on_train_batch_end_def on_epoch_end_def)

text \<open>Two metrics and the suffix \<open>_val\<close>, on both axes.\<close>

theorem C5_metric_names_get_suffix_witness:
  "distinct (map fst [(''loss'', 3 :: int), (''acc'', 4)])
   \<and> evaluate (\<lambda>d w. (Inr [(''loss'', 3 :: int), (''acc'', 4)], w))
        (init True () (Some 1) (Some 2) ''_val'') ()
      = (Inr [(''loss_val'', 3), (''acc_val'', 4)], ())
   \<and> priv_results_batches (fst (snd (on_train_batch_end
        (\<lambda>d w. (Inr [(''loss'', 3 :: int), (''acc'', 4)], w))
        (init True () (Some 1) (Some 2) ''_val'') () 0 (None :: unit option))))
      = [[(''loss_val'', 3), (''acc_val'', 4)]]
   \<and> priv_results_epochs (fst (snd (on_epoch_end
        (\<lambda>d w. (Inr [(''loss'', 3 :: int), (''acc'', 4)], w))
        (init True () (Some 1) (Some 2) ''_val'') () 0 (None :: unit option))))
      = [[(''loss_val'', 3), (''acc_val'', 4)]]"
proof -
  have h1: "distinct (map fst [(''loss'', 3 :: int), (''acc'', 4)])" by simp
  have h2: "(\<lambda>d w. (Inr [(''loss'', 3 :: int), (''acc'', 4)], w))
              (dataset (init True () (Some 1) (Some 2) ''_val'' :: (unit, int) EvaluateDataset)) ()
            = (Inr [(''loss'', 3 :: int), (''acc'', 4)], ())" by simp
  from C5_metric_names_get_suffix [where ev = "\<lambda>d w. (Inr [(''loss'', 3 :: int), (''acc'', 4)], w)"
      and s = "init True () (Some 1) (Some 2) ''_val''" and w = "()" and b = 0
      and l = "None :: unit option", OF h1 h2] h1
  show ?thesis by (simp add: init_def)
qed

subsection \<open>C6\<close>



subsection \<open>C7\<close>

text \<open>
  Claim C7. Let the model's \<open>evaluate\<close> raise \<open>e\<close> on a notification whose trigger
  fires. The notification raises the same \<open>e\<close>; the object is unchanged, so nothing is
  appended, the counter is not incremented and the earlier results are kept; the world is the
  one left by that single call, so the call is not repeated; and the delivery of the
  notifications ends there. The same holds on the epoch axis.
\<close>

theorem C7_evaluation_failure_propagates:
  assumes "ev (dataset s) w = (Inl e, w')"
  shows
    "((\<exists>F. freq_batches s = Some F \<and> F \<noteq> 0 \<and> batches_seen s mod F = 0) \<longrightarrow>
        on_train_batch_end ev s w b l = (Some e, s, w')
        \<and> deliver_batch_ends ev s w ((b, l) # rest) = (Some e, s, w'))
     \<and> ((\<exists>F. freq_epochs s = Some F \<and> F \<noteq> 0 \<and> epochs_seen s mod F = 0) \<longrightarrow>
        on_epoch_end ev s w b l = (Some e, s, w')
        \<and> deliver_epoch_ends ev s w ((b, l) # rest) = (Some e, s, w'))"
  using assms by (auto simp: on_train_batch_end_def on_epoch_end_def evaluate_def)

text \<open>A model with no value left raises on the first notification of either axis.\<close>

theorem C7_evaluation_failure_propagates_witness:
  "loss_model_evaluate (dataset (init True () (Some 1) (Some 1) '''' :: (unit, int) EvaluateDataset)) []
     = (Inl (External ''no value left''), [])
   \<and> on_train_batch_end loss_model_evaluate
        (init True () (Some 1) (Some 1) '''' :: (unit, int) EvaluateDataset) [] 0 (None :: unit option)
     = (Some (External ''no value left''), init True () (Some 1) (Some 1) '''', [])
   \<and> on_epoch_end loss_model_evaluate
        (init True () (Some 1) (Some 1) '''' :: (unit, int) EvaluateDataset) [] 0 (None :: unit option)
     = (Some (External ''no value left''), init True () (Some 1) (Some 1) '''', [])
   \<and> deliver_batch_ends loss_model_evaluate
        (init True () (Some 1) (Some 1) '''' :: (unit, int) EvaluateDataset) []
        [(0, None :: unit option), (1, None)]
     = (Some (External ''no value left''), init True () (Some 1) (Some 1) '''', [])"
proof -
  have h: "loss_model_evaluate
             (dataset (init True () (Some 1) (Some 1) '''' :: (unit, int) EvaluateDataset)) []
           = (Inl (External ''no value left''), [])" by simp
  from C7_evaluation_failure_propagates [where ev = loss_model_evaluate
      and s = "init True () (Some 1) (Some 1) ''''" and w = "[]" and b = 0
      and l = "None :: unit option" and rest = "[(1, None)]", OF h] h
  show ?thesis by (simp add: init_def)
qed

subsection \<open>C8\<close>

text \<open>
  Claim C8. With \<open>freq_batches = 5\<close>, \<open>append = "_TID2013"\<close>, a model that reports
  \<open>{"loss": v}\<close> with the successive values -0.85, -0.90, -0.89, -0.91, and ten batch-end
  notifications: the delivery returns normally with \<open>batches_seen = 10\<close>, two entries in
  the result sequence and the values -0.89 and -0.91 not yet reported, so exactly two cycles
  fired; \<open>results_batches\<close> is \<open>{"loss_TID2013": [-0.85, -0.90]}\<close>; and the number of
  entries after 0, 1, ..., 10 notifications shows that the two cycles fired on the
  notifications of index 0 and 5. The values are stored and returned untouched, so the
  floating-point numbers of the scenario are represented by the reals of the same name.
\<close>

theorem C8_scenario:
  "deliver_batch_ends loss_model_evaluate (init True ds None (Some 5) ''_TID2013'')
       [- 0.85, - 0.90, - 0.89, - 0.91 :: real]
       [(0, None :: unit option), (1, None), (2, None), (3, None), (4, None),
        (5, None), (6, None), (7, None), (8, None), (9, None)]
     = (None,
        init True ds None (Some 5) ''_TID2013''
          \<lparr> batches_seen := 10,
            priv_results_batches := [[(''loss_TID2013'', - 0.85)], [(''loss_TID2013'', - 0.90)]] \<rparr>,
        [- 0.89, - 0.91])
   \<and> results_batches (fst (snd (deliver_batch_ends loss_model_evaluate
          (init True ds None (Some 5) ''_TID2013'')
          [- 0.85, - 0.90, - 0.89, - 0.91 :: real]
          [(0, None :: unit option), (1, None), (2, None), (3, None), (4, None),
           (5, None), (6, None), (7, None), (8, None), (9, None)])))
     = Inr [(''loss_TID2013'', [- 0.85, - 0.90])]
   \<and> map (\<lambda>i. length (priv_results_batches (fst (snd (deliver_batch_ends loss_model_evaluate
          (init True ds None (Some 5) ''_TID2013'')
          [- 0.85, - 0.90, - 0.89, - 0.91 :: real]
          (take i [(0, None :: unit option), (1, None), (2, None), (3, None), (4, None),
                   (5, None), (6, None), (7, None), (8, None), (9, None)]))))))
        [0, 1, 2, 3, 4, 5, 6, 7, 8, 9, 10]
     = [0, 1, 1, 1, 1, 1, 2, 2, 2, 2, 2]"
  by (simp add: init_def on_train_batch_end_def evaluate_def results_batches_def
      unpack_list_dicts_def unpack_item_def)

subsection \<open>C9\<close>

text \<open>
  Claim C9. The result of a notification (the exception raised, if any, the object afterwards
  and the world afterwards) is a function of the object, the model's \<open>evaluate\<close> and the
  world: two notifications that differ only in the \<open>batch\<close> argument and in the
  \<open>logs\<close> argument, absent or not, have the same result. This holds for both methods.
\<close>

theorem C9_arguments_ignored:
  "on_train_batch_end ev s w b1 l1 = on_train_batch_end ev s w b2 l2
   \<and> on_epoch_end ev s w b1 l1 = on_epoch_end ev s w b2 l2"
  by (simp add: on_train_batch_end_def on_epoch_end_def)

subsection \<open>C10\<close>

text \<open>
  Claim C10. \<open>_unpack_list_dicts\<close> returns a dictionary for every list of dictionaries,
  whatever their key sets: the \<open>KeyError\<close> of \<open>res[metric]\<close> never occurs. A key that
  occurs in at least one dictionary maps to the list of its values in exactly the
  dictionaries that contain it, in the order of the list; no other key is in the table. The
  length of a value list is therefore the number of dictionaries that contain the key, which
  for a key that first appears in a later dictionary is less than the length of the list.
\<close>

theorem C10_unpack_never_fails:
  "\<exists>t. unpack_list_dicts ds = Inr t
     \<and> distinct (map fst t)
     \<and> ((\<forall>d \<in> set ds. distinct (map fst d)) \<longrightarrow>
          (\<forall>k. map_of t k =
             (if \<exists>d \<in> set ds. dict_contains d k
              then Some (List.map_filter (\<lambda>d. map_of d k) ds) else None))
          \<and> (\<forall>(k, vs) \<in> set t. length vs = length (filter (\<lambda>d. dict_contains d k) ds)))"
proof -
  from unpack_list_dicts_ok [of ds] obtain t where
    t: "unpack_list_dicts ds = Inr t" and d: "distinct (map fst t)"
    and m: "\<And>k. map_of t k =
           (if map snd (filter (\<lambda>p. fst p = k) (concat ds)) = [] then None
            else Some (map snd (filter (\<lambda>p. fst p = k) (concat ds))))"
    by blast
  have "(\<forall>k. map_of t k =
             (if \<exists>d \<in> set ds. dict_contains d k
              then Some (List.map_filter (\<lambda>d. map_of d k) ds) else None))
          \<and> (\<forall>(k, vs) \<in> set t. length vs = length (filter (\<lambda>d. dict_contains d k) ds))"
    if wf: "\<forall>d \<in> set ds. distinct (map fst d)"
  proof -
    have v: "map snd (filter (\<lambda>p. fst p = k) (concat ds)) = List.map_filter (\<lambda>d. map_of d k) ds"
      for k using wf by (rule values_of_key_concat)
    have c: "(\<exists>d \<in> set ds. dict_contains d k) \<longleftrightarrow> k \<in> fst ` set t" for k
      using table_keys [OF t] by (simp add: dict_contains_iff)
    have 1: "map_of t k =
             (if \<exists>d \<in> set ds. dict_contains d k
              then Some (List.map_filter (\<lambda>d. map_of d k) ds) else None)" for k
    proof (cases "k \<in> fst ` set t")
      case True
      then have "map_of t k \<noteq> None" by (simp add: map_of_eq_None_iff)
      with m [of k] v [of k] c [of k] True show ?thesis by (simp split: if_splits)
    next
      case False
      then have "map_of t k = None" by (simp add: map_of_eq_None_iff)
      with c [of k] False show ?thesis by simp
    qed
    have 2: "length vs = length (filter (\<lambda>d. dict_contains d k) ds)" if "(k, vs) \<in> set t" for k vs
    proof -
      from table_entry [OF t that] v [of k] have "vs = List.map_filter (\<lambda>d. map_of d k) ds"
        by simp
      then show ?thesis by (simp add: length_map_filter_contains)
    qed
    from 1 2 show ?thesis by blast
  qed
  with t d show ?thesis by blast
qed

text \<open>
  The metric \<open>acc\<close> appears in the second dictionary only: its list has one value, the list
  of \<open>loss\<close> has two.
\<close>

theorem C10_unpack_never_fails_witness:
  "distinct (map fst [(''loss'', 1 :: int)]) \<and> distinct (map fst [(''loss'', 2 :: int), (''acc'', 3)])
   \<and> unpack_list_dicts [[(''loss'', 1 :: int)], [(''loss'', 2), (''acc'', 3)]]
       = Inr [(''loss'', [1, 2]), (''acc'', [3])]"
  using C10_unpack_never_fails [where ds = "[[(''loss'', 1 :: int)], [(''loss'', 2), (''acc'', 3)]]"]
  by (simp add: unpack_list_dicts_def unpack_item_def)

end
